theory Spec2Isabelle
  imports Complex_Main "HOL-Library.Multiset" "HOL-Library.Sublist" "HOL-Library.Log_Nat"
begin

section \<open>Numbers, dates and market data\<close>

text \<open>
  The optimizer of \<^verbatim>\<open>app.py\<close> computes with Python floats. For the resolver and the
  allocation they are modelled as exact real numbers; the bracket tax calculator is
  modelled twice, on exact reals and on IEEE doubles with their rounding. NaN and
  overflow are outside this development. The one non-finite value the source writes
  down itself, \<^verbatim>\<open>float('inf')\<close>, is kept as a constructor of its own. Integers (unit
  counts) are Python's unbounded ints.
\<close>

datatype xreal = Fin real | PInf

text \<open>\<^verbatim>\<open>a <= b\<close> on floats that may be \<^verbatim>\<open>inf\<close>.\<close>

fun xle :: "xreal \<Rightarrow> xreal \<Rightarrow> bool" where
  "xle _ PInf = True"
| "xle PInf (Fin _) = False"
| "xle (Fin a) (Fin b) = (a \<le> b)"

datatype py_error = ZeroDivisionError

text \<open>\<^verbatim>\<open>a / b\<close> on floats raises on a zero divisor.\<close>

definition py_div :: "real \<Rightarrow> real \<Rightarrow> py_error + real" where
  "py_div a b = (if b = 0 then Inl ZeroDivisionError else Inr (a / b))"

text \<open>\<^verbatim>\<open>int(x)\<close> truncates towards zero.\<close>

definition py_int :: "real \<Rightarrow> int" where
  "py_int x = (if 0 \<le> x then \<lfloor>x\<rfloor> else \<lceil>x\<rceil>)"

definition np_ceil :: "real \<Rightarrow> real" where
  "np_ceil x = of_int \<lceil>x\<rceil>"

text \<open>
  Dates are calendar days, as produced by \<^verbatim>\<open>pd.to_datetime\<close> from the normalised
  \<^verbatim>\<open>%Y-%m-%d\<close> strings. \<^verbatim>\<open>d + relativedelta(months=24)\<close> moves the year by two and
  clips the day to the length of the target month.
\<close>

record date =
  year :: int
  month :: int
  day :: int

definition date_less :: "date \<Rightarrow> date \<Rightarrow> bool" where
  "date_less a b =
     (year a < year b \<or>
      (year a = year b \<and> (month a < month b \<or> (month a = month b \<and> day a < day b))))"

definition isleap :: "int \<Rightarrow> bool" where
  "isleap y = (y mod 4 = 0 \<and> (y mod 100 \<noteq> 0 \<or> y mod 400 = 0))"

definition days_in_month :: "int \<Rightarrow> int \<Rightarrow> int" where
  "days_in_month y m =
     (if m = 2 then (if isleap y then 29 else 28)
      else if m = 4 \<or> m = 6 \<or> m = 9 \<or> m = 11 then 30 else 31)"

definition plus_24_months :: "date \<Rightarrow> date" where
  "plus_24_months d =
     \<lparr>year = year d + 2, month = month d,
      day = min (days_in_month (year d + 2) (month d)) (day d)\<rparr>"

text \<open>
  The two lookups \<^verbatim>\<open>get_stock_price(ticker, date, use_30d_avg)\<close> and
  \<^verbatim>\<open>get_fx_rate(date)\<close> call an external service; they are parameters of the model.
  \<^verbatim>\<open>None\<close> is an unavailable value.
\<close>

record market =
  get_stock_price :: "string \<Rightarrow> date \<Rightarrow> bool \<Rightarrow> real option"
  get_fx_rate :: "date \<Rightarrow> real option"

text \<open>Python truthiness of an optional float: \<^verbatim>\<open>None\<close> and \<^verbatim>\<open>0.0\<close> are false.\<close>

definition truthy :: "real option \<Rightarrow> bool" where
  "truthy v = (case v of None \<Rightarrow> False | Some x \<Rightarrow> x \<noteq> 0)"

definition all_truthy :: "real option list \<Rightarrow> bool" where
  "all_truthy vs = list_all truthy vs"

section \<open>Grants and tax components\<close>

record grant =
  Company_name :: string
  Stock_Code :: string
  Grant_date :: date
  Vesting_date :: date
  Number_of_units :: int
  Section_102 :: string

record tax_components =
  ordinary_per_share :: real
  capital_per_share :: real
  sale_price_nis :: real
  grant_price_nis :: real
  sale_price_usd :: real
  grant_price_usd :: real
  note_str :: string

text \<open>The section sign of the notes is the code point U+00A7.\<close>

definition s102 :: string where
  "s102 = CHR 0xA7 # ''102''"

definition note_disqualified :: string where
  "note_disqualified = s102 @ '' Disqualified (sold < 24m): Full amount is ordinary income.''"

definition note_capital_gains :: string where
  "note_capital_gains = s102 @ '' Capital Gains Route''"

definition note_underwater :: string where
  "note_underwater = s102 @ '' Underwater: Ordinary income only, no capital loss.''"

definition note_non102 :: string where
  "note_non102 = ''Non-'' @ s102 @ '': Capital gain/loss from vest date.''"

text \<open>
  \<^verbatim>\<open>get_tax_components\<close>. The values are read with \<open>the\<close> only after the check
  \<^verbatim>\<open>all([...])\<close> has found them present.
\<close>

definition get_tax_components :: "market \<Rightarrow> grant \<Rightarrow> date \<Rightarrow> tax_components option" where
  "get_tax_components m g sale_date =
     (let grant_date = Grant_date g;
          sale_price = get_stock_price m (Stock_Code g) sale_date False;
          sale_fx = get_fx_rate m sale_date;
          grant_price = get_stock_price m (Stock_Code g) grant_date True;
          grant_fx = get_fx_rate m grant_date
      in if \<not> all_truthy [sale_price, sale_fx, grant_price, grant_fx] then None
         else
           let sale_nis = the sale_price * the sale_fx;
               grant_nis = the grant_price * the grant_fx
           in if Section_102 g = ''Capital Gains Route'' then
                (if \<not> all_truthy [grant_price, grant_fx] then None
                 else
                   let base_102_nis = the grant_price * the grant_fx
                   in if date_less sale_date (plus_24_months grant_date) then
                        Some \<lparr>ordinary_per_share = sale_nis, capital_per_share = 0,
                              sale_price_nis = sale_nis, grant_price_nis = grant_nis,
                              sale_price_usd = the sale_price, grant_price_usd = the grant_price,
                              note_str = note_disqualified\<rparr>
                      else
                        Some \<lparr>ordinary_per_share = min base_102_nis sale_nis,
                              capital_per_share = max 0 (sale_nis - base_102_nis),
                              sale_price_nis = sale_nis, grant_price_nis = grant_nis,
                              sale_price_usd = the sale_price, grant_price_usd = the grant_price,
                              note_str = (if sale_nis < base_102_nis then note_underwater
                                      else note_capital_gains)\<rparr>)
              else
                (let vest_price = get_stock_price m (Stock_Code g) (Vesting_date g) False;
                     vest_fx = get_fx_rate m (Vesting_date g)
                 in if \<not> all_truthy [vest_price, vest_fx] then None
                    else
                      let vest_nis = the vest_price * the vest_fx
                      in Some \<lparr>ordinary_per_share = 0, capital_per_share = sale_nis - vest_nis,
                               sale_price_nis = sale_nis, grant_price_nis = grant_nis,
                               sale_price_usd = the sale_price, grant_price_usd = the grant_price,
                               note_str = note_non102\<rparr>))"

section \<open>Bracket tax calculator\<close>

definition ISRAELI_TAX_BRACKETS_2025 :: "(xreal \<times> real) list" where
  "ISRAELI_TAX_BRACKETS_2025 =
     [(Fin 84120, 0.10), (Fin 120720, 0.14), (Fin 193800, 0.20), (Fin 269280, 0.31),
      (Fin 560280, 0.35), (Fin 721560, 0.47), (PInf, 0.50)]"

definition CAPITAL_GAINS_RATE :: real where
  "CAPITAL_GAINS_RATE = 0.25"

text \<open>
  The loop of the inner function \<^verbatim>\<open>tax_on_income\<close>, with its two variables \<^verbatim>\<open>tax\<close>
  and \<^verbatim>\<open>previous_limit\<close>; leaving the recursion is the \<^verbatim>\<open>break\<close>. Once
  \<^verbatim>\<open>previous_limit\<close> is \<^verbatim>\<open>inf\<close> the test \<^verbatim>\<open>income > previous_limit\<close> is false.
\<close>

fun tax_on_income_loop :: "real \<Rightarrow> (xreal \<times> real) list \<Rightarrow> real \<Rightarrow> xreal \<Rightarrow> real" where
  "tax_on_income_loop income [] tax previous_limit = tax"
| "tax_on_income_loop income ((limit, rate) # brackets) tax previous_limit =
     (case previous_limit of
        PInf \<Rightarrow> tax
      | Fin p \<Rightarrow>
          if income > p then
            let taxable_in_bracket =
                  (case limit of Fin l \<Rightarrow> min (income - p) (l - p) | PInf \<Rightarrow> income - p)
            in tax_on_income_loop income brackets (tax + taxable_in_bracket * rate) limit
          else tax)"

definition tax_on_income :: "real \<Rightarrow> (xreal \<times> real) list \<Rightarrow> real" where
  "tax_on_income income brackets = tax_on_income_loop income brackets 0 (Fin 0)"

text \<open>
  \<^verbatim>\<open>calc_progressive_tax\<close>; the table \<^verbatim>\<open>self.ISRAELI_TAX_BRACKETS_2025\<close> it reads is
  the first argument.
\<close>

definition calc_progressive_tax :: "(xreal \<times> real) list \<Rightarrow> real \<Rightarrow> real \<Rightarrow> real" where
  "calc_progressive_tax brackets income_start increment =
     (if increment \<le> 0 then 0
      else tax_on_income (income_start + increment) brackets - tax_on_income income_start brackets)"

section \<open>Bracket tax calculator in double arithmetic\<close>










section \<open>Allocation optimizer\<close>

text \<open>
  An entry of \<^verbatim>\<open>grants_to_process\<close> is the grant's row merged with its components and
  its efficiency; a recommendation is such an entry with \<^verbatim>\<open>units_to_sell\<close> added.
\<close>

record processed =
  grant_of :: grant
  components :: tax_components
  efficiency :: xreal

record recommendation =
  rec_grant :: processed
  units_to_sell :: int

definition efficiency_of :: "tax_components \<Rightarrow> py_error + xreal" where
  "efficiency_of c =
     (if ordinary_per_share c > 0 \<and> capital_per_share c > 0 then
        (case py_div (capital_per_share c) (ordinary_per_share c) of
           Inl e \<Rightarrow> Inl e
         | Inr q \<Rightarrow> Inr (Fin q))
      else if capital_per_share c > 0 then Inr PInf
      else Inr (Fin 0))"

fun grants_to_process :: "market \<Rightarrow> date \<Rightarrow> grant list \<Rightarrow> py_error + processed list" where
  "grants_to_process m sale_date [] = Inr []"
| "grants_to_process m sale_date (g # rsu_data) =
     (case get_tax_components m g sale_date of
        None \<Rightarrow> grants_to_process m sale_date rsu_data
      | Some c \<Rightarrow>
          (case efficiency_of c of
             Inl e \<Rightarrow> Inl e
           | Inr eff \<Rightarrow>
               (case grants_to_process m sale_date rsu_data of
                  Inl e \<Rightarrow> Inl e
                | Inr ps \<Rightarrow> Inr (\<lparr>grant_of = g, components = c, efficiency = eff\<rparr> # ps))))"

text \<open>
  \<^verbatim>\<open>sorted(..., key=lambda x: x['efficiency'], reverse=True)\<close>: descending and
  stable, entries of equal efficiency stay in their original order.
\<close>

fun insort_desc :: "processed \<Rightarrow> processed list \<Rightarrow> processed list" where
  "insort_desc g [] = [g]"
| "insort_desc g (h # hs) =
     (if xle (efficiency h) (efficiency g) then g # h # hs else h # insort_desc g hs)"

definition sorted_reverse :: "processed list \<Rightarrow> processed list" where
  "sorted_reverse gs = foldr insort_desc gs []"

definition startswith :: "string \<Rightarrow> string \<Rightarrow> bool" where
  "startswith s p = prefix p s"

definition is_s102_gain :: "processed \<Rightarrow> bool" where
  "is_s102_gain g =
     (startswith (note_str (components g)) s102 \<and> capital_per_share (components g) \<ge> 0
      \<and> ordinary_per_share (components g) > 0)"

definition is_cap_loss :: "processed \<Rightarrow> bool" where
  "is_cap_loss g = (capital_per_share (components g) < 0)"

definition s102_gains :: "processed list \<Rightarrow> processed list" where
  "s102_gains gtp = sorted_reverse (filter is_s102_gain gtp)"

definition cap_losses :: "processed list \<Rightarrow> processed list" where
  "cap_losses gtp = filter is_cap_loss gtp"

text \<open>
  The first loop over \<^verbatim>\<open>s102_gains\<close>. The recursion's second argument is
  \<^verbatim>\<open>running_income\<close>; the result is the list of recommendations appended, in order.
\<close>

fun phase1_loop :: "real \<Rightarrow> real \<Rightarrow> processed list \<Rightarrow> py_error + recommendation list" where
  "phase1_loop target_bracket_limit running_income [] = Inr []"
| "phase1_loop target_bracket_limit running_income (g # gs) =
     (let ord_per_share = ordinary_per_share (components g) in
      if ord_per_share \<le> 0 then phase1_loop target_bracket_limit running_income gs
      else
        let room_for_ord_income = target_bracket_limit - running_income in
        if room_for_ord_income \<le> 0 then Inr []
        else
          (case py_div room_for_ord_income ord_per_share of
             Inl e \<Rightarrow> Inl e
           | Inr q \<Rightarrow>
               let u = min (Number_of_units (grant_of g)) (py_int q) in
               if u \<le> 0 then phase1_loop target_bracket_limit running_income gs
               else
                 (case phase1_loop target_bracket_limit
                         (running_income + of_int u * ord_per_share) gs of
                    Inl e \<Rightarrow> Inl e
                  | Inr recs \<Rightarrow> Inr (\<lparr>rec_grant = g, units_to_sell = u\<rparr> # recs))))"

definition total_cap_gain_to_offset :: "recommendation list \<Rightarrow> real" where
  "total_cap_gain_to_offset recs =
     sum_list (map (\<lambda>r. capital_per_share (components (rec_grant r)) * of_int (units_to_sell r)) recs)"

text \<open>
  The second loop over \<^verbatim>\<open>cap_losses\<close>; the second argument is \<^verbatim>\<open>running_loss_sold\<close>.
\<close>

fun phase2_loop :: "real \<Rightarrow> real \<Rightarrow> processed list \<Rightarrow> py_error + recommendation list" where
  "phase2_loop to_offset running_loss_sold [] = Inr []"
| "phase2_loop to_offset running_loss_sold (g # gs) =
     (if running_loss_sold \<ge> to_offset then Inr []
      else
        let loss_per_share = \<bar>capital_per_share (components g)\<bar> in
        if loss_per_share \<le> 0 then phase2_loop to_offset running_loss_sold gs
        else
          let needed_loss = to_offset - running_loss_sold in
          (case py_div needed_loss loss_per_share of
             Inl e \<Rightarrow> Inl e
           | Inr q \<Rightarrow>
               let u = min (Number_of_units (grant_of g)) (py_int (np_ceil q)) in
               if u \<le> 0 then phase2_loop to_offset running_loss_sold gs
               else
                 (case phase2_loop to_offset (running_loss_sold + of_int u * loss_per_share) gs of
                    Inl e \<Rightarrow> Inl e
                  | Inr recs \<Rightarrow> Inr (\<lparr>rec_grant = g, units_to_sell = u\<rparr> # recs))))"

text \<open>
  \<^verbatim>\<open>income_room\<close> is computed and clamped at the head of \<^verbatim>\<open>optimize_rsu_sales\<close>; the
  loops do not read it, they recompute the room from \<^verbatim>\<open>running_income\<close>.
\<close>

definition income_room :: "real \<Rightarrow> real \<Rightarrow> real" where
  "income_room current_income target_bracket_limit =
     (if target_bracket_limit - current_income \<le> 0 then 0
      else target_bracket_limit - current_income)"

text \<open>
  The body of \<^verbatim>\<open>optimize_rsu_sales\<close> in its parts: the gains phase is the first loop
  on the sorted candidates, the loss phase the second loop on the loss candidates with
  the total of the first; \<open>recommendations\<close> is the list \<^verbatim>\<open>recommendations\<close> after
  both loops, and \<open>optimize_rsu_sales\<close> turns it into the table. The sale date is
  \<^verbatim>\<open>datetime.now()\<close> in the source and an argument here.
\<close>

definition gains_phase :: "real \<Rightarrow> real \<Rightarrow> processed list \<Rightarrow> py_error + recommendation list" where
  "gains_phase current_income target_bracket_limit gtp =
     phase1_loop target_bracket_limit current_income (s102_gains gtp)"

definition loss_phase :: "recommendation list \<Rightarrow> processed list \<Rightarrow> py_error + recommendation list" where
  "loss_phase recs1 gtp = phase2_loop (total_cap_gain_to_offset recs1) 0 (cap_losses gtp)"

definition recommendations ::
  "market \<Rightarrow> grant list \<Rightarrow> real \<Rightarrow> real \<Rightarrow> date \<Rightarrow> py_error + recommendation list" where
  "recommendations m rsu_data current_income target_bracket_limit sale_date =
     (case grants_to_process m sale_date rsu_data of
        Inl e \<Rightarrow> Inl e
      | Inr gtp \<Rightarrow>
          (case gains_phase current_income target_bracket_limit gtp of
             Inl e \<Rightarrow> Inl e
           | Inr recs1 \<Rightarrow>
               (case loss_phase recs1 gtp of
                  Inl e \<Rightarrow> Inl e
                | Inr recs2 \<Rightarrow> Inr (recs1 @ recs2))))"

text \<open>
  A row of the returned table. The source formats the amounts as text with two
  decimals, and puts the NIS and the USD price of a share into one column; the model keeps
  the numbers, one field each.
\<close>

record result_row =
  Company :: string
  Grant_Date :: date
  Grant_Price_NIS_sh :: real
  Grant_Price_USD_sh :: real
  Units_to_Sell :: int
  Sale_Price_NIS_sh :: real
  Sale_Price_USD_sh :: real
  Ordinary_NIS_sh :: real
  Capital_Gain_NIS_sh :: real
  Ordinary_Total :: real
  Capital_Gain_Total :: real
  Income_Tax :: real
  Capital_Gains_Tax :: real
  Total_Tax :: real
  Net_Proceeds :: real
  Note :: string

fun final_results :: "real \<Rightarrow> recommendation list \<Rightarrow> result_row list" where
  "final_results running_income_for_tax [] = []"
| "final_results running_income_for_tax (r # recs) =
     (let units = units_to_sell r;
          c = components (rec_grant r);
          ord_total = ordinary_per_share c * of_int units;
          cap_total = capital_per_share c * of_int units;
          income_tax = calc_progressive_tax ISRAELI_TAX_BRACKETS_2025 running_income_for_tax ord_total;
          cgt = max 0 cap_total * CAPITAL_GAINS_RATE;
          total_tax = income_tax + cgt;
          net_proceeds = sale_price_nis c * of_int units - total_tax
      in \<lparr>Company = Company_name (grant_of (rec_grant r)),
          Grant_Date = Grant_date (grant_of (rec_grant r)),
          Grant_Price_NIS_sh = grant_price_nis c, Grant_Price_USD_sh = grant_price_usd c,
          Units_to_Sell = units,
          Sale_Price_NIS_sh = sale_price_nis c, Sale_Price_USD_sh = sale_price_usd c,
          Ordinary_NIS_sh = ordinary_per_share c, Capital_Gain_NIS_sh = capital_per_share c,
          Ordinary_Total = ord_total, Capital_Gain_Total = cap_total,
          Income_Tax = income_tax, Capital_Gains_Tax = cgt, Total_Tax = total_tax,
          Net_Proceeds = net_proceeds, Note = note_str c\<rparr>
         # final_results (running_income_for_tax + ord_total) recs)"

definition optimize_rsu_sales ::
  "market \<Rightarrow> grant list \<Rightarrow> real \<Rightarrow> real \<Rightarrow> date \<Rightarrow> py_error + result_row list" where
  "optimize_rsu_sales m rsu_data current_income target_bracket_limit sale_date =
     (case recommendations m rsu_data current_income target_bracket_limit sale_date of
        Inl e \<Rightarrow> Inl e
      | Inr recs \<Rightarrow> Inr (final_results current_income recs))"

section \<open>Quantities of the allocation loops\<close>

text \<open>
  The value of \<^verbatim>\<open>running_income\<close> after the recommendations \<open>recs\<close> were appended, the
  value of \<^verbatim>\<open>running_loss_sold\<close> after them, and the units recommended for one row of
  the input over a whole list of recommendations.
\<close>

definition income_after :: "real \<Rightarrow> recommendation list \<Rightarrow> real" where
  "income_after current_income recs =
     current_income
     + sum_list (map (\<lambda>r. of_int (units_to_sell r) * ordinary_per_share (components (rec_grant r))) recs)"

definition loss_after :: "recommendation list \<Rightarrow> real" where
  "loss_after recs =
     sum_list (map (\<lambda>r. of_int (units_to_sell r) * \<bar>capital_per_share (components (rec_grant r))\<bar>) recs)"

definition units_recommended :: "grant \<Rightarrow> recommendation list \<Rightarrow> int" where
  "units_recommended g recs =
     sum_list (map units_to_sell (filter (\<lambda>r. grant_of (rec_grant r) = g) recs))"

section \<open>Example data\<close>

text \<open>
  The grant and the mocked lookups of the unit tests in \<^verbatim>\<open>test_rsu_optimizer.py\<close>
  (sale price and grant price vary by test; vesting price 100; FX rates 3.8 at the sale,
  3.5 at the grant date, 3.6 at the vesting date), and a second grant outside the Capital
  Gains Route whose ticker vested at 200.
\<close>

definition example_grant :: grant where
  "example_grant =
     \<lparr>Company_name = ''TestCorp'', Stock_Code = ''TC'',
      Grant_date = \<lparr>year = 2022, month = 1, day = 1\<rparr>,
      Vesting_date = \<lparr>year = 2023, month = 1, day = 1\<rparr>,
      Number_of_units = 100, Section_102 = ''Capital Gains Route''\<rparr>"

definition loss_grant :: grant where
  "loss_grant =
     \<lparr>Company_name = ''LossCorp'', Stock_Code = ''LS'',
      Grant_date = \<lparr>year = 2022, month = 1, day = 1\<rparr>,
      Vesting_date = \<lparr>year = 2023, month = 1, day = 1\<rparr>,
      Number_of_units = 1000, Section_102 = ''Not Capital Gains Route''\<rparr>"

definition example_market :: "real \<Rightarrow> real \<Rightarrow> market" where
  "example_market sale_usd grant_usd =
     \<lparr>get_stock_price =
        (\<lambda>ticker d use_30d_avg.
           if use_30d_avg then Some grant_usd
           else if d = \<lparr>year = 2023, month = 1, day = 1\<rparr>
             then Some (if ticker = ''LS'' then 200 else 100)
           else Some sale_usd),
      get_fx_rate =
        (\<lambda>d. if d = \<lparr>year = 2022, month = 1, day = 1\<rparr> then Some 3.5
             else if d = \<lparr>year = 2023, month = 1, day = 1\<rparr> then Some 3.6
             else Some 3.8)\<rparr>"

definition late_sale :: date where
  "late_sale = \<lparr>year = 2025, month = 6, day = 1\<rparr>"

definition early_sale :: date where
  "early_sale = \<lparr>year = 2023, month = 6, day = 1\<rparr>"

text \<open>
  The entries of \<^verbatim>\<open>grants_to_process\<close> these grants resolve to, at a sale price of 150
  and at a sale price of 40.
\<close>

definition example_processed :: processed where
  "example_processed =
     \<lparr>grant_of = example_grant,
      components =
        \<lparr>ordinary_per_share = 175, capital_per_share = 395, sale_price_nis = 570,
         grant_price_nis = 175, sale_price_usd = 150, grant_price_usd = 50,
         note_str = note_capital_gains\<rparr>,
      efficiency = Fin (395 / 175)\<rparr>"

definition loss_processed :: processed where
  "loss_processed =
     \<lparr>grant_of = loss_grant,
      components =
        \<lparr>ordinary_per_share = 0, capital_per_share = - 150, sale_price_nis = 570,
         grant_price_nis = 175, sale_price_usd = 150, grant_price_usd = 50,
         note_str = note_non102\<rparr>,
      efficiency = Fin 0\<rparr>"

definition underwater_processed :: processed where
  "underwater_processed =
     \<lparr>grant_of = example_grant,
      components =
        \<lparr>ordinary_per_share = 152, capital_per_share = 0, sale_price_nis = 152,
         grant_price_nis = 175, sale_price_usd = 40, grant_price_usd = 50,
         note_str = note_underwater\<rparr>,
      efficiency = Fin 0\<rparr>"

definition deep_loss_processed :: processed where
  "deep_loss_processed =
     \<lparr>grant_of = loss_grant,
      components =
        \<lparr>ordinary_per_share = 0, capital_per_share = - 568, sale_price_nis = 152,
         grant_price_nis = 175, sale_price_usd = 40, grant_price_usd = 50,
         note_str = note_non102\<rparr>,
      efficiency = Fin 0\<rparr>"

section \<open>Tax component resolver: properties\<close>

lemmas date_simps = date_less_def plus_24_months_def days_in_month_def isleap_def

lemma qualified_components:
  assumes "get_tax_components m g d = Some c"
    and "Section_102 g = ''Capital Gains Route''"
    and "\<not> date_less d (plus_24_months (Grant_date g))"
  shows "sale_price_nis c = ordinary_per_share c + capital_per_share c
         \<and> startswith (note_str c) s102"
  using assms
  by (auto simp: get_tax_components_def Let_def startswith_def note_underwater_def
        note_capital_gains_def split: if_splits)

text \<open>
  Claim C2. A grant on the Capital Gains Route, sold no earlier than 24 months after the
  grant date, whose four market values are available and non-zero and whose sale value
  \<open>sp * sf\<close> is strictly below its base value \<open>gp * gf\<close>: the resolver returns
  components with capital component 0 and ordinary component equal to the sale value,
  which is not the base value. No capital loss is recognised.
\<close>

theorem underwater_no_capital_loss:
  assumes "Section_102 g = ''Capital Gains Route''"
    and "\<not> date_less sale_date (plus_24_months (Grant_date g))"
    and "get_stock_price m (Stock_Code g) sale_date False = Some sp" and "sp \<noteq> 0"
    and "get_fx_rate m sale_date = Some sf" and "sf \<noteq> 0"
    and "get_stock_price m (Stock_Code g) (Grant_date g) True = Some gp" and "gp \<noteq> 0"
    and "get_fx_rate m (Grant_date g) = Some gf" and "gf \<noteq> 0"
    and "sp * sf < gp * gf"
  shows "\<exists>c. get_tax_components m g sale_date = Some c \<and> capital_per_share c = 0
            \<and> ordinary_per_share c = sp * sf \<and> ordinary_per_share c \<noteq> gp * gf"
  using assms by (simp add: get_tax_components_def all_truthy_def truthy_def Let_def)

theorem underwater_no_capital_loss_witness:
  "\<exists>c. get_tax_components (example_market 40 50) example_grant late_sale = Some c
       \<and> capital_per_share c = 0 \<and> ordinary_per_share c = 152 \<and> ordinary_per_share c \<noteq> 175"
  using underwater_no_capital_loss
          [of example_grant late_sale "example_market 40 50" 40 "3.8" 50 "3.5"]
  by (simp add: example_grant_def example_market_def late_sale_def date_simps)

text \<open>
  Claim C3. A grant on the Capital Gains Route sold earlier than 24 months after the grant
  date, with its four market values available and non-zero: the resolver returns
  ordinary component equal to the full sale value and capital component 0, whatever the
  base value is.
\<close>

theorem early_sale_all_ordinary:
  assumes "Section_102 g = ''Capital Gains Route''"
    and "date_less sale_date (plus_24_months (Grant_date g))"
    and "get_stock_price m (Stock_Code g) sale_date False = Some sp" and "sp \<noteq> 0"
    and "get_fx_rate m sale_date = Some sf" and "sf \<noteq> 0"
    and "get_stock_price m (Stock_Code g) (Grant_date g) True = Some gp" and "gp \<noteq> 0"
    and "get_fx_rate m (Grant_date g) = Some gf" and "gf \<noteq> 0"
  shows "\<exists>c. get_tax_components m g sale_date = Some c \<and> ordinary_per_share c = sp * sf
            \<and> capital_per_share c = 0"
  using assms by (simp add: get_tax_components_def all_truthy_def truthy_def Let_def)

theorem early_sale_all_ordinary_witness:
  "\<exists>c. get_tax_components (example_market 150 50) example_grant early_sale = Some c
       \<and> ordinary_per_share c = 570 \<and> capital_per_share c = 0"
  using early_sale_all_ordinary
          [of example_grant early_sale "example_market 150 50" 150 "3.8" 50 "3.5"]
  by (simp add: example_grant_def example_market_def early_sale_def date_simps)

text \<open>
  Claim C9. If the sale price, the sale FX rate, the grant-date price or the grant-date FX
  rate is the number 0, or, for a grant not on the Capital Gains Route, the vesting-date
  price or FX rate is 0, then resolution fails, as it does for an unavailable value, and
  the optimizer drops the grant from the list it processes.
\<close>

theorem zero_market_value_excludes_grant:
  assumes "get_stock_price m (Stock_Code g) sale_date False = Some 0
         \<or> get_fx_rate m sale_date = Some 0
         \<or> get_stock_price m (Stock_Code g) (Grant_date g) True = Some 0
         \<or> get_fx_rate m (Grant_date g) = Some 0
         \<or> (Section_102 g \<noteq> ''Capital Gains Route''
             \<and> (get_stock_price m (Stock_Code g) (Vesting_date g) False = Some 0
                \<or> get_fx_rate m (Vesting_date g) = Some 0))"
  shows "truthy (Some 0) = truthy None
         \<and> get_tax_components m g sale_date = None
         \<and> grants_to_process m sale_date (g # rsu_data) = grants_to_process m sale_date rsu_data"
proof -
  have "get_tax_components m g sale_date = None"
    using assms by (auto simp: get_tax_components_def all_truthy_def truthy_def Let_def)
  then show ?thesis by (simp add: truthy_def)
qed

theorem zero_market_value_excludes_grant_witness:
  "truthy (Some 0) = truthy None
   \<and> get_tax_components (example_market 0 50) example_grant late_sale = None
   \<and> grants_to_process (example_market 0 50) late_sale [example_grant] = Inr []"
  using zero_market_value_excludes_grant [of "example_market 0 50" example_grant late_sale "[]"]
  by (simp add: example_market_def late_sale_def)

section \<open>Bracket tax calculator: properties\<close>

text \<open>
  In exact arithmetic the tax on an increment is a difference of total taxes, so it
  telescopes: for every bracket table, the tax on \<open>x + y\<close> from \<open>base\<close> is the tax on
  \<open>x\<close> from \<open>base\<close> plus the tax on \<open>y\<close> from \<open>base + x\<close>.
\<close>

lemma exact_tax_increment_additive:
  assumes "0 \<le> x" and "0 \<le> y"
  shows "calc_progressive_tax brackets base (x + y)
         = calc_progressive_tax brackets base x + calc_progressive_tax brackets (base + x) y"
  using assms by (auto simp: calc_progressive_tax_def add.assoc)

section \<open>Double arithmetic: rounding and its error\<close>























section \<open>The exact tax is monotone and grows no faster than the income\<close>








section \<open>The double tax against the exact tax\<close>




section \<open>Additivity of the marginal tax\<close>




section \<open>End-to-end scenario\<close>

lemma tax_100000_17500:
  "calc_progressive_tax ISRAELI_TAX_BRACKETS_2025 100000 17500 = 2450"
  by (simp add: calc_progressive_tax_def tax_on_income_def ISRAELI_TAX_BRACKETS_2025_def)

lemma py_int_967: "py_int (169280 / 175) = 967"
  by (simp add: py_int_def)

text \<open>
  Claim C1. One grant on the Capital Gains Route, sold no earlier than 24 months after
  the grant date, resolved to ordinary component 175 and capital component 395 per
  share, with 100 units, current income 100000 and target ceiling 269280: the optimizer
  returns exactly one row, with 100 units to sell, ordinary total 17500, capital total
  39500, income tax 2450, capital gains tax 9875 and net proceeds 44675.
\<close>

theorem end_to_end_scenario:
  assumes "Section_102 g = ''Capital Gains Route''"
    and "\<not> date_less sale_date (plus_24_months (Grant_date g))"
    and "get_tax_components m g sale_date = Some c"
    and "ordinary_per_share c = 175" and "capital_per_share c = 395"
    and "Number_of_units g = 100"
  shows "\<exists>row. optimize_rsu_sales m [g] 100000 269280 sale_date = Inr [row]
           \<and> Units_to_Sell row = 100 \<and> Ordinary_Total row = 17500
           \<and> Capital_Gain_Total row = 39500 \<and> Income_Tax row = 2450
           \<and> Capital_Gains_Tax row = 9875 \<and> Net_Proceeds row = 44675"
proof -
  from qualified_components [OF assms(3) assms(1) assms(2)] assms(4,5)
  have sale: "sale_price_nis c = 570" and pre: "startswith (note_str c) s102"
    by simp_all
  define p where "p = \<lparr>grant_of = g, components = c, efficiency = Fin (395 / 175)\<rparr>"
  have gtp: "grants_to_process m sale_date [g] = Inr [p]"
    using assms(3,4,5) by (simp add: efficiency_of_def py_div_def p_def)
  have gains: "s102_gains [p] = [p]"
    using pre assms(4,5) by (simp add: s102_gains_def sorted_reverse_def is_s102_gain_def p_def)
  have losses: "cap_losses [p] = []"
    using assms(5) by (simp add: cap_losses_def is_cap_loss_def p_def)
  have ph1: "gains_phase 100000 269280 [p] = Inr [\<lparr>rec_grant = p, units_to_sell = 100\<rparr>]"
    unfolding gains_phase_def gains using assms(4,6) py_int_967
    by (simp add: py_div_def p_def)
  have recs: "recommendations m [g] 100000 269280 sale_date
                = Inr [\<lparr>rec_grant = p, units_to_sell = 100\<rparr>]"
    unfolding recommendations_def gtp by (simp add: ph1 loss_phase_def losses)
  show ?thesis
    unfolding optimize_rsu_sales_def recs using assms(4,5) sale tax_100000_17500
    by (simp add: p_def CAPITAL_GAINS_RATE_def)
qed

theorem end_to_end_scenario_witness:
  "\<exists>row. optimize_rsu_sales (example_market 150 50) [example_grant] 100000 269280 late_sale
             = Inr [row]
           \<and> Units_to_Sell row = 100 \<and> Ordinary_Total row = 17500
           \<and> Capital_Gain_Total row = 39500 \<and> Income_Tax row = 2450
           \<and> Capital_Gains_Tax row = 9875 \<and> Net_Proceeds row = 44675"
proof -
  have c: "get_tax_components (example_market 150 50) example_grant late_sale
      = Some \<lparr>ordinary_per_share = 175, capital_per_share = 395, sale_price_nis = 570,
          grant_price_nis = 175, sale_price_usd = 150, grant_price_usd = 50,
          note_str = note_capital_gains\<rparr>"
    by (simp add: get_tax_components_def example_market_def example_grant_def late_sale_def
        all_truthy_def truthy_def date_simps)
  show ?thesis
    using end_to_end_scenario [OF _ _ c]
    by (simp add: example_grant_def late_sale_def date_simps)
qed

section \<open>The two allocation loops: one step, totality, order and bounds\<close>

text \<open>
  One iteration of each loop either skips the grant (\<^verbatim>\<open>continue\<close>), stops the loop
  (\<^verbatim>\<open>break\<close>) or appends a recommendation; the case rules below name the three.
\<close>

lemma py_int_pos: "0 \<le> x \<Longrightarrow> py_int x = \<lfloor>x\<rfloor>"
  by (simp add: py_int_def)

lemma py_int_np_ceil: "py_int (np_ceil x) = \<lceil>x\<rceil>"
  by (simp add: py_int_def np_ceil_def)

lemma phase1_loop_Cons_cases:
  assumes "phase1_loop tgt run (g # gs) = Inr recs"
  obtains (skip) "phase1_loop tgt run gs = Inr recs"
  | (stop) "recs = []"
  | (sell) u recs' where
      "0 < ordinary_per_share (components g)" and "run < tgt"
      and "u = min (Number_of_units (grant_of g))
                   \<lfloor>(tgt - run) / ordinary_per_share (components g)\<rfloor>"
      and "0 < u"
      and "phase1_loop tgt (run + of_int u * ordinary_per_share (components g)) gs = Inr recs'"
      and "recs = \<lparr>rec_grant = g, units_to_sell = u\<rparr> # recs'"
proof (cases "ordinary_per_share (components g) \<le> 0")
  case True
  with assms have "phase1_loop tgt run gs = Inr recs" by simp
  then show ?thesis by (rule skip)
next
  case ord: False
  show ?thesis
  proof (cases "tgt - run \<le> 0")
    case True
    with ord assms have "recs = []" by simp
    then show ?thesis by (rule stop)
  next
    case room: False
    define u where "u = min (Number_of_units (grant_of g))
                            \<lfloor>(tgt - run) / ordinary_per_share (components g)\<rfloor>"
    have q: "py_div (tgt - run) (ordinary_per_share (components g))
               = Inr ((tgt - run) / ordinary_per_share (components g))"
      using ord by (simp add: py_div_def)
    have pi: "py_int ((tgt - run) / ordinary_per_share (components g))
               = \<lfloor>(tgt - run) / ordinary_per_share (components g)\<rfloor>"
      using ord room by (intro py_int_pos) simp
    show ?thesis
    proof (cases "u \<le> 0")
      case True
      with ord room assms q pi have "phase1_loop tgt run gs = Inr recs"
        by (simp add: u_def)
      then show ?thesis by (rule skip)
    next
      case False
      with ord room assms q pi obtain recs' where
        h1: "phase1_loop tgt (run + of_int u * ordinary_per_share (components g)) gs = Inr recs'"
        and h2: "recs = \<lparr>rec_grant = g, units_to_sell = u\<rparr> # recs'"
        by (auto simp: u_def Let_def split: sum.splits)
      have pos: "0 < u" using False by simp
      have o: "0 < ordinary_per_share (components g)" using ord by simp
      have rt: "run < tgt" using room by simp
      show ?thesis by (rule sell [OF o rt u_def pos h1 h2])
    qed
  qed
qed

lemma phase1_loop_total: "\<exists>recs. phase1_loop tgt run gs = Inr recs"
proof (induction gs arbitrary: run)
  case Nil
  show ?case by simp
next
  case (Cons g gs)
  show ?case
  proof (cases "ordinary_per_share (components g) = 0")
    case True
    with Cons show ?thesis by simp
  next
    case False
    then have "py_div (tgt - run) (ordinary_per_share (components g))
                 = Inr ((tgt - run) / ordinary_per_share (components g))"
      by (simp add: py_div_def)
    moreover obtain r1 where "phase1_loop tgt run gs = Inr r1"
      using Cons by blast
    moreover obtain r2 where "phase1_loop tgt
        (run + of_int (min (Number_of_units (grant_of g))
                 (py_int ((tgt - run) / ordinary_per_share (components g))))
               * ordinary_per_share (components g)) gs = Inr r2"
      using Cons by blast
    ultimately show ?thesis by (simp add: Let_def)
  qed
qed

lemma phase1_loop_units:
  "phase1_loop tgt run gs = Inr recs \<Longrightarrow> r \<in> set recs \<Longrightarrow>
     0 < units_to_sell r \<and> units_to_sell r \<le> Number_of_units (grant_of (rec_grant r))"
proof (induction gs arbitrary: run recs)
  case Nil
  then show ?case by simp
next
  case (Cons g gs)
  from Cons.prems(1) show ?case
  proof (cases rule: phase1_loop_Cons_cases)
    case skip
    then show ?thesis using Cons.IH Cons.prems(2) by blast
  next
    case stop
    then show ?thesis using Cons.prems(2) by simp
  next
    case (sell u recs')
    show ?thesis
    proof (cases "r = \<lparr>rec_grant = g, units_to_sell = u\<rparr>")
      case True
      then show ?thesis using sell(3,4) by simp
    next
      case False
      then have "r \<in> set recs'" using sell(6) Cons.prems(2) by simp
      then show ?thesis using Cons.IH sell(5) by blast
    qed
  qed
qed

lemma phase1_loop_subseq:
  "phase1_loop tgt run gs = Inr recs \<Longrightarrow> subseq (map rec_grant recs) gs"
proof (induction gs arbitrary: run recs)
  case Nil
  then show ?case by simp
next
  case (Cons g gs)
  from Cons.prems(1) show ?case
  proof (cases rule: phase1_loop_Cons_cases)
    case skip
    then show ?thesis using Cons.IH by (simp add: list_emb_Cons)
  next
    case stop
    then show ?thesis by simp
  next
    case (sell u recs')
    then show ?thesis using Cons.IH by simp
  qed
qed

lemma income_after_Cons:
  "income_after run (r # pre)
     = income_after (run + of_int (units_to_sell r) * ordinary_per_share (components (rec_grant r))) pre"
  by (simp add: income_after_def)

lemma floor_units_fit:
  fixes room ord :: real
  assumes "0 < ord" and "u \<le> \<lfloor>room / ord\<rfloor>"
  shows "of_int u * ord \<le> room"
proof -
  have "of_int u \<le> room / ord" using assms(2) by (simp add: le_floor_iff)
  then show ?thesis using assms(1) by (simp add: pos_le_divide_eq)
qed

lemma phase1_loop_trace:
  "phase1_loop tgt run gs = Inr recs \<Longrightarrow> recs = pre @ r # post \<Longrightarrow>
     0 < ordinary_per_share (components (rec_grant r))
     \<and> income_after run pre < tgt
     \<and> units_to_sell r
         = min (Number_of_units (grant_of (rec_grant r)))
               \<lfloor>(tgt - income_after run pre) / ordinary_per_share (components (rec_grant r))\<rfloor>
     \<and> income_after run (pre @ [r]) \<le> tgt"
proof (induction gs arbitrary: run recs pre)
  case Nil
  then show ?case by simp
next
  case (Cons g gs)
  from Cons.prems(1) show ?case
  proof (cases rule: phase1_loop_Cons_cases)
    case skip
    then show ?thesis using Cons.IH Cons.prems(2) by blast
  next
    case stop
    then show ?thesis using Cons.prems(2) by simp
  next
    case (sell u recs')
    show ?thesis
    proof (cases pre)
      case Nil
      then have r: "r = \<lparr>rec_grant = g, units_to_sell = u\<rparr>"
        using sell(6) Cons.prems(2) by simp
      have "of_int u * ordinary_per_share (components g) \<le> tgt - run"
        using sell(1,3) by (intro floor_units_fit) simp_all
      then show ?thesis using Nil r sell(1,2,3) by (simp add: income_after_def)
    next
      case (Cons r0 pre')
      then have r0: "r0 = \<lparr>rec_grant = g, units_to_sell = u\<rparr>" and rest: "recs' = pre' @ r # post"
        using sell(6) Cons.prems(2) by simp_all
      from Cons.IH [OF sell(5) rest] show ?thesis
        by (simp add: Cons r0 income_after_Cons)
    qed
  qed
qed

lemma phase2_loop_Cons_cases:
  assumes "phase2_loop to_offset sold (g # gs) = Inr recs"
  obtains (skip) "phase2_loop to_offset sold gs = Inr recs"
  | (stop) "recs = []"
  | (sell) u recs' where
      "0 < \<bar>capital_per_share (components g)\<bar>" and "sold < to_offset"
      and "u = min (Number_of_units (grant_of g))
                   \<lceil>(to_offset - sold) / \<bar>capital_per_share (components g)\<bar>\<rceil>"
      and "0 < u"
      and "phase2_loop to_offset (sold + of_int u * \<bar>capital_per_share (components g)\<bar>) gs
             = Inr recs'"
      and "recs = \<lparr>rec_grant = g, units_to_sell = u\<rparr> # recs'"
proof (cases "sold \<ge> to_offset")
  case True
  with assms have "recs = []" by simp
  then show ?thesis by (rule stop)
next
  case need: False
  show ?thesis
  proof (cases "\<bar>capital_per_share (components g)\<bar> \<le> 0")
    case True
    with need assms have "phase2_loop to_offset sold gs = Inr recs" by simp
    then show ?thesis by (rule skip)
  next
    case loss: False
    define u where "u = min (Number_of_units (grant_of g))
                            \<lceil>(to_offset - sold) / \<bar>capital_per_share (components g)\<bar>\<rceil>"
    have q: "py_div (to_offset - sold) \<bar>capital_per_share (components g)\<bar>
               = Inr ((to_offset - sold) / \<bar>capital_per_share (components g)\<bar>)"
      using loss by (simp add: py_div_def)
    show ?thesis
    proof (cases "u \<le> 0")
      case True
      with need loss assms q have "phase2_loop to_offset sold gs = Inr recs"
        by (simp add: u_def py_int_np_ceil)
      then show ?thesis by (rule skip)
    next
      case False
      with need loss assms q obtain recs' where
        h1: "phase2_loop to_offset (sold + of_int u * \<bar>capital_per_share (components g)\<bar>) gs
               = Inr recs'"
        and h2: "recs = \<lparr>rec_grant = g, units_to_sell = u\<rparr> # recs'"
        by (auto simp: u_def Let_def py_int_np_ceil split: sum.splits)
      have pos: "0 < u" using False by simp
      have l: "0 < \<bar>capital_per_share (components g)\<bar>" using loss by simp
      have nd: "sold < to_offset" using need by simp
      show ?thesis by (rule sell [OF l nd u_def pos h1 h2])
    qed
  qed
qed

lemma phase2_loop_total: "\<exists>recs. phase2_loop to_offset sold gs = Inr recs"
proof (induction gs arbitrary: sold)
  case Nil
  show ?case by simp
next
  case (Cons g gs)
  show ?case
  proof (cases "capital_per_share (components g) = 0")
    case True
    with Cons show ?thesis by simp
  next
    case False
    then have "py_div (to_offset - sold) \<bar>capital_per_share (components g)\<bar>
                 = Inr ((to_offset - sold) / \<bar>capital_per_share (components g)\<bar>)"
      by (simp add: py_div_def)
    moreover obtain r1 where "phase2_loop to_offset sold gs = Inr r1"
      using Cons by blast
    moreover obtain r2 where "phase2_loop to_offset
        (sold + of_int (min (Number_of_units (grant_of g))
                 (py_int (np_ceil ((to_offset - sold) / \<bar>capital_per_share (components g)\<bar>))))
               * \<bar>capital_per_share (components g)\<bar>) gs = Inr r2"
      using Cons by blast
    ultimately show ?thesis by (simp add: Let_def)
  qed
qed

lemma phase2_loop_units:
  "phase2_loop to_offset sold gs = Inr recs \<Longrightarrow> r \<in> set recs \<Longrightarrow>
     0 < units_to_sell r \<and> units_to_sell r \<le> Number_of_units (grant_of (rec_grant r))"
proof (induction gs arbitrary: sold recs)
  case Nil
  then show ?case by simp
next
  case (Cons g gs)
  from Cons.prems(1) show ?case
  proof (cases rule: phase2_loop_Cons_cases)
    case skip
    then show ?thesis using Cons.IH Cons.prems(2) by blast
  next
    case stop
    then show ?thesis using Cons.prems(2) by simp
  next
    case (sell u recs')
    show ?thesis
    proof (cases "r = \<lparr>rec_grant = g, units_to_sell = u\<rparr>")
      case True
      then show ?thesis using sell(3,4) by simp
    next
      case False
      then have "r \<in> set recs'" using sell(6) Cons.prems(2) by simp
      then show ?thesis using Cons.IH sell(5) by blast
    qed
  qed
qed

lemma phase2_loop_subseq:
  "phase2_loop to_offset sold gs = Inr recs \<Longrightarrow> subseq (map rec_grant recs) gs"
proof (induction gs arbitrary: sold recs)
  case Nil
  then show ?case by simp
next
  case (Cons g gs)
  from Cons.prems(1) show ?case
  proof (cases rule: phase2_loop_Cons_cases)
    case skip
    then show ?thesis using Cons.IH by (simp add: list_emb_Cons)
  next
    case stop
    then show ?thesis by simp
  next
    case (sell u recs')
    then show ?thesis using Cons.IH by simp
  qed
qed

lemma ceiling_units_overshoot:
  fixes need lps :: real
  assumes "0 < lps" and "u \<le> \<lceil>need / lps\<rceil>"
  shows "of_int u * lps < need + lps"
proof -
  have "of_int u \<le> (of_int \<lceil>need / lps\<rceil> :: real)" using assms(2) by simp
  also have "\<dots> < need / lps + 1" using ceiling_correct [of "need / lps"] by simp
  finally have "of_int u * lps < (need / lps + 1) * lps"
    using assms(1) by simp
  then show ?thesis using assms(1) by (simp add: distrib_right)
qed

lemma phase2_loop_trace:
  "phase2_loop to_offset sold gs = Inr recs \<Longrightarrow> recs = pre @ r # post \<Longrightarrow>
     sold + loss_after pre < to_offset
     \<and> units_to_sell r
         = min (Number_of_units (grant_of (rec_grant r)))
               \<lceil>(to_offset - (sold + loss_after pre))
                  / \<bar>capital_per_share (components (rec_grant r))\<bar>\<rceil>
     \<and> sold + loss_after (pre @ [r])
         < to_offset + \<bar>capital_per_share (components (rec_grant r))\<bar>"
proof (induction gs arbitrary: sold recs pre)
  case Nil
  then show ?case by simp
next
  case (Cons g gs)
  from Cons.prems(1) show ?case
  proof (cases rule: phase2_loop_Cons_cases)
    case skip
    then show ?thesis using Cons.IH Cons.prems(2) by blast
  next
    case stop
    then show ?thesis using Cons.prems(2) by simp
  next
    case (sell u recs')
    show ?thesis
    proof (cases pre)
      case Nil
      then have r: "r = \<lparr>rec_grant = g, units_to_sell = u\<rparr>"
        using sell(6) Cons.prems(2) by simp
      have "of_int u * \<bar>capital_per_share (components g)\<bar>
              < (to_offset - sold) + \<bar>capital_per_share (components g)\<bar>"
        using sell(1,3) by (intro ceiling_units_overshoot) simp_all
      then show ?thesis using Nil r sell(2,3) by (simp add: loss_after_def)
    next
      case (Cons r0 pre')
      then have r0: "r0 = \<lparr>rec_grant = g, units_to_sell = u\<rparr>" and rest: "recs' = pre' @ r # post"
        using sell(6) Cons.prems(2) by simp_all
      have e: "\<And>xs. sold + loss_after (r0 # xs)
                  = sold + of_int u * \<bar>capital_per_share (components g)\<bar> + loss_after xs"
        by (simp add: loss_after_def r0)
      from Cons.IH [OF sell(5) rest] show ?thesis
        unfolding Cons append_Cons e .
    qed
  qed
qed

text \<open>Sorting and filtering keep the entries; resolving keeps the rows and their order.\<close>

lemma mset_insort_desc: "mset (insort_desc g gs) = add_mset g (mset gs)"
  by (induction gs) auto

lemma mset_sorted_reverse: "mset (sorted_reverse gs) = mset gs"
  by (induction gs) (simp_all add: sorted_reverse_def mset_insort_desc)

lemma set_s102_gains: "set (s102_gains gtp) = {g \<in> set gtp. is_s102_gain g}"
proof -
  have "set (s102_gains gtp) = set_mset (mset (s102_gains gtp))" by simp
  also have "\<dots> = set_mset (mset (filter is_s102_gain gtp))"
    by (simp only: s102_gains_def mset_sorted_reverse)
  finally show ?thesis by simp
qed

lemma subseq_mset: "subseq xs ys \<Longrightarrow> mset xs \<subseteq># mset ys"
  by (induction rule: list_emb.induct) (auto intro: subset_mset.order_trans)

lemma efficiency_of_total: "efficiency_of c \<noteq> Inl e"
  by (simp add: efficiency_of_def py_div_def)

lemma grants_to_process_total: "\<exists>gtp. grants_to_process m d rsu_data = Inr gtp"
proof (induction rsu_data)
  case Nil
  show ?case by simp
next
  case (Cons g rsu_data)
  then obtain gtp where "grants_to_process m d rsu_data = Inr gtp" by blast
  then show ?case by (auto split: option.splits sum.splits simp: efficiency_of_total)
qed

lemma grants_to_process_subseq:
  "grants_to_process m d rsu_data = Inr gtp \<Longrightarrow> subseq (map grant_of gtp) rsu_data"
proof (induction rsu_data arbitrary: gtp)
  case Nil
  then show ?case by simp
next
  case (Cons g rsu_data)
  then show ?case
    by (auto split: option.splits sum.splits simp: list_emb_Cons)
qed

lemma grants_to_process_components:
  "grants_to_process m d rsu_data = Inr gtp \<Longrightarrow> p \<in> set gtp \<Longrightarrow>
     get_tax_components m (grant_of p) d = Some (components p)"
proof (induction rsu_data arbitrary: gtp)
  case Nil
  then show ?case by simp
next
  case (Cons g rsu_data)
  then show ?case
    by (auto split: option.splits sum.splits)
qed

lemma set_cap_losses: "set (cap_losses gtp) = {g \<in> set gtp. is_cap_loss g}"
  by (auto simp: cap_losses_def)

lemma subseq_set: "subseq xs ys \<Longrightarrow> set xs \<subseteq> set ys"
  by (induction rule: list_emb.induct) auto

lemma phase1_loop_no_room: "tgt \<le> run \<Longrightarrow> phase1_loop tgt run gs = Inr []"
  by (induction gs) (simp_all add: Let_def)

lemma phase2_loop_nothing_to_offset: "to_offset \<le> sold \<Longrightarrow> phase2_loop to_offset sold gs = Inr []"
  by (cases gs) simp_all

lemma recommendations_total:
  "\<exists>recs. recommendations m rsu_data cur tgt d = Inr recs"
proof -
  obtain gtp where 1: "grants_to_process m d rsu_data = Inr gtp"
    using grants_to_process_total by blast
  obtain recs1 where 2: "gains_phase cur tgt gtp = Inr recs1"
    unfolding gains_phase_def using phase1_loop_total by blast
  obtain recs2 where 3: "loss_phase recs1 gtp = Inr recs2"
    unfolding loss_phase_def using phase2_loop_total by blast
  show ?thesis by (simp add: recommendations_def 1 2 3)
qed

lemma total_cap_gain_zero:
  "\<forall>r \<in> set recs. capital_per_share (components (rec_grant r)) = 0 \<Longrightarrow>
     total_cap_gain_to_offset recs = 0"
  by (induction recs) (simp_all add: total_cap_gain_to_offset_def)

lemma gain_not_loss: "is_s102_gain p \<Longrightarrow> \<not> is_cap_loss p"
  by (simp add: is_s102_gain_def is_cap_loss_def)

lemma disjoint_filters_mset:
  assumes "\<And>x. P x \<Longrightarrow> \<not> Q x"
  shows "mset (filter P xs) + mset (filter Q xs) \<subseteq># mset xs"
  using assms by (induction xs) (auto intro: subset_mset.order_trans)

lemma sum_list_bounded:
  fixes f :: "'a \<Rightarrow> int"
  assumes "\<forall>x \<in> set xs. f x \<le> c"
  shows "sum_list (map f xs) \<le> int (length xs) * c"
  using assms by (induction xs) (auto simp: distrib_right)

lemma count_map_filter:
  "count (mset (map f xs)) y = length (filter (\<lambda>x. f x = y) xs)"
  by (induction xs) auto

section \<open>The example data, evaluated\<close>

lemma example_is_gain: "is_s102_gain example_processed"
  by (simp add: is_s102_gain_def example_processed_def startswith_def note_capital_gains_def)

lemma loss_not_gain: "\<not> is_s102_gain loss_processed"
  by (simp add: is_s102_gain_def loss_processed_def)

lemma example_s102_gains: "s102_gains [example_processed, loss_processed] = [example_processed]"
  by (simp add: s102_gains_def example_is_gain loss_not_gain sorted_reverse_def)

lemma example_cap_losses: "cap_losses [example_processed, loss_processed] = [loss_processed]"
  by (simp add: cap_losses_def is_cap_loss_def example_processed_def loss_processed_def)

lemma example_gtp:
  "grants_to_process (example_market 150 50) late_sale [example_grant, loss_grant]
     = Inr [example_processed, loss_processed]"
proof -
  have c1: "get_tax_components (example_market 150 50) example_grant late_sale
             = Some (components example_processed)"
    by (simp add: get_tax_components_def example_market_def example_grant_def late_sale_def
          all_truthy_def truthy_def date_simps example_processed_def)
  have c2: "get_tax_components (example_market 150 50) loss_grant late_sale
             = Some (components loss_processed)"
    by (simp add: get_tax_components_def example_market_def loss_grant_def late_sale_def
          all_truthy_def truthy_def loss_processed_def)
  have e1: "efficiency_of (components example_processed) = Inr (Fin (395 / 175))"
    by (simp add: efficiency_of_def example_processed_def py_div_def)
  have e2: "efficiency_of (components loss_processed) = Inr (Fin 0)"
    by (simp add: efficiency_of_def loss_processed_def)
  show ?thesis
    by (simp add: c1 c2 e1 e2) (simp add: example_processed_def loss_processed_def)
qed

lemma example_gains_tight:
  "gains_phase 100000 110000 [example_processed, loss_processed]
     = Inr [\<lparr>rec_grant = example_processed, units_to_sell = 57\<rparr>]"
  unfolding gains_phase_def example_s102_gains
  by (simp add: example_processed_def example_grant_def py_div_def py_int_def)

lemma example_gains:
  "gains_phase 100000 269280 [example_processed, loss_processed]
     = Inr [\<lparr>rec_grant = example_processed, units_to_sell = 100\<rparr>]"
  unfolding gains_phase_def example_s102_gains
  by (simp add: example_processed_def example_grant_def py_div_def py_int_def)

lemma example_total:
  "total_cap_gain_to_offset [\<lparr>rec_grant = example_processed, units_to_sell = 100\<rparr>] = 39500"
  by (simp add: total_cap_gain_to_offset_def example_processed_def)

lemma example_loss_phase:
  "loss_phase [\<lparr>rec_grant = example_processed, units_to_sell = 100\<rparr>]
       [example_processed, loss_processed]
     = Inr [\<lparr>rec_grant = loss_processed, units_to_sell = 264\<rparr>]"
  unfolding loss_phase_def example_cap_losses example_total
  by (simp add: loss_processed_def loss_grant_def py_div_def py_int_def np_ceil_def)

lemma underwater_gtp:
  "grants_to_process (example_market 40 50) late_sale [example_grant, loss_grant]
     = Inr [underwater_processed, deep_loss_processed]"
proof -
  have 1: "get_tax_components (example_market 40 50) example_grant late_sale
             = Some (components underwater_processed)"
    by (simp add: get_tax_components_def example_market_def example_grant_def late_sale_def
          all_truthy_def truthy_def date_simps underwater_processed_def)
  have 2: "get_tax_components (example_market 40 50) loss_grant late_sale
             = Some (components deep_loss_processed)"
    by (simp add: get_tax_components_def example_market_def loss_grant_def late_sale_def
          all_truthy_def truthy_def deep_loss_processed_def)
  have 3: "efficiency_of (components underwater_processed) = Inr (Fin 0)"
    by (simp add: efficiency_of_def underwater_processed_def)
  have 4: "efficiency_of (components deep_loss_processed) = Inr (Fin 0)"
    by (simp add: efficiency_of_def deep_loss_processed_def)
  show ?thesis
    by (simp add: 1 2 3 4) (simp add: underwater_processed_def deep_loss_processed_def)
qed

lemma underwater_gains:
  "gains_phase 100000 269280 [underwater_processed, deep_loss_processed]
     = Inr [\<lparr>rec_grant = underwater_processed, units_to_sell = 100\<rparr>]"
proof -
  have "s102_gains [underwater_processed, deep_loss_processed] = [underwater_processed]"
    by (simp add: s102_gains_def is_s102_gain_def sorted_reverse_def underwater_processed_def
          deep_loss_processed_def startswith_def note_underwater_def)
  then show ?thesis
    unfolding gains_phase_def
    by (simp add: underwater_processed_def example_grant_def py_div_def py_int_def)
qed

section \<open>Phase 1: the gains phase\<close>

text \<open>
  Claim C5. For every list of resolved grants, every current income and every target
  ceiling, the gains phase returns a list of recommendations in which no recommendation
  sells more units than its grant has. Each recommendation is made only while the
  running income (the current income plus the ordinary income of the recommendations
  before it) is strictly below the ceiling; its units are the minimum of the grant's unit
  count and the floor of the remaining room divided by the ordinary component per share;
  and the running income after it does not exceed the ceiling, so it stays less than
  one share's ordinary component above it.
\<close>

theorem gains_phase_fits_under_ceiling:
  "\<exists>recs. gains_phase current_income target gtp = Inr recs
     \<and> (\<forall>r \<in> set recs. units_to_sell r \<le> Number_of_units (grant_of (rec_grant r)))
     \<and> (\<forall>pre r post. recs = pre @ r # post \<longrightarrow>
          0 < ordinary_per_share (components (rec_grant r))
          \<and> income_after current_income pre < target
          \<and> units_to_sell r
              = min (Number_of_units (grant_of (rec_grant r)))
                    \<lfloor>(target - income_after current_income pre)
                       / ordinary_per_share (components (rec_grant r))\<rfloor>
          \<and> income_after current_income (pre @ [r]) \<le> target
          \<and> income_after current_income (pre @ [r])
              < target + ordinary_per_share (components (rec_grant r)))"
proof -
  obtain recs where recs: "phase1_loop target current_income (s102_gains gtp) = Inr recs"
    using phase1_loop_total by blast
  have units: "\<forall>r \<in> set recs. units_to_sell r \<le> Number_of_units (grant_of (rec_grant r))"
    using phase1_loop_units [OF recs] by blast
  have trace: "0 < ordinary_per_share (components (rec_grant r))
          \<and> income_after current_income pre < target
          \<and> units_to_sell r
              = min (Number_of_units (grant_of (rec_grant r)))
                    \<lfloor>(target - income_after current_income pre)
                       / ordinary_per_share (components (rec_grant r))\<rfloor>
          \<and> income_after current_income (pre @ [r]) \<le> target
          \<and> income_after current_income (pre @ [r])
              < target + ordinary_per_share (components (rec_grant r))"
    if "recs = pre @ r # post" for pre r post
    using phase1_loop_trace [OF recs that] by auto
  show ?thesis
    unfolding gains_phase_def using recs units trace by blast
qed

theorem gains_phase_fits_under_ceiling_witness:
  "gains_phase 100000 110000 [example_processed, loss_processed]
     = Inr [\<lparr>rec_grant = example_processed, units_to_sell = 57\<rparr>]
   \<and> (57::int) \<le> Number_of_units example_grant
   \<and> (57::int) = min (Number_of_units example_grant) \<lfloor>(110000 - 100000) / (175::real)\<rfloor>
   \<and> income_after 100000 [\<lparr>rec_grant = example_processed, units_to_sell = 57\<rparr>] \<le> 110000"
proof -
  from gains_phase_fits_under_ceiling [of 100000 110000 "[example_processed, loss_processed]"]
  have "\<forall>r \<in> set [\<lparr>rec_grant = example_processed, units_to_sell = 57\<rparr>].
           units_to_sell r \<le> Number_of_units (grant_of (rec_grant r))"
    and "\<forall>pre r post. [\<lparr>rec_grant = example_processed, units_to_sell = 57\<rparr>] = pre @ r # post \<longrightarrow>
          units_to_sell r
              = min (Number_of_units (grant_of (rec_grant r)))
                    \<lfloor>(110000 - income_after 100000 pre)
                       / ordinary_per_share (components (rec_grant r))\<rfloor>
          \<and> income_after 100000 (pre @ [r]) \<le> 110000"
    unfolding example_gains_tight by auto
  from this(1) this(2) [rule_format, of "[]" "\<lparr>rec_grant = example_processed, units_to_sell = 57\<rparr>" "[]"]
  show ?thesis
    using example_gains_tight by (simp add: example_processed_def income_after_def)
qed

section \<open>Phase 2: loss harvesting\<close>

text \<open>
  Claim C6. For every list of phase-1 recommendations and every list of resolved grants,
  the loss phase returns recommendations whose grants appear in the order of the input
  list, each with a negative capital component and with no more units than its grant
  has. Each recommendation is made only while the loss realised before it is strictly
  below the total capital gain to offset; its units are the minimum of the grant's unit
  count and the ceiling of the loss still needed divided by the loss per share; and the
  loss realised after it exceeds the total by less than that grant's loss per share.
\<close>

theorem loss_phase_covers_offset_within_one_share:
  "\<exists>recs. loss_phase recs1 gtp = Inr recs
     \<and> subseq (map rec_grant recs) gtp
     \<and> (\<forall>r \<in> set recs. capital_per_share (components (rec_grant r)) < 0
           \<and> units_to_sell r \<le> Number_of_units (grant_of (rec_grant r)))
     \<and> (\<forall>pre r post. recs = pre @ r # post \<longrightarrow>
          loss_after pre < total_cap_gain_to_offset recs1
          \<and> units_to_sell r
              = min (Number_of_units (grant_of (rec_grant r)))
                    \<lceil>(total_cap_gain_to_offset recs1 - loss_after pre)
                       / \<bar>capital_per_share (components (rec_grant r))\<bar>\<rceil>
          \<and> loss_after (pre @ [r])
              < total_cap_gain_to_offset recs1 + \<bar>capital_per_share (components (rec_grant r))\<bar>)"
proof -
  obtain recs where recs:
    "phase2_loop (total_cap_gain_to_offset recs1) 0 (cap_losses gtp) = Inr recs"
    using phase2_loop_total by blast
  have sub: "subseq (map rec_grant recs) (cap_losses gtp)"
    using phase2_loop_subseq [OF recs] .
  have "subseq (cap_losses gtp) gtp"
    by (simp add: cap_losses_def)
  with sub have order: "subseq (map rec_grant recs) gtp"
    by (rule subseq_order.trans)
  have neg: "capital_per_share (components (rec_grant r)) < 0" if "r \<in> set recs" for r
  proof -
    have "rec_grant r \<in> set (cap_losses gtp)"
      using subseq_set [OF sub] that by auto
    then show ?thesis by (simp add: set_cap_losses is_cap_loss_def)
  qed
  have units: "units_to_sell r \<le> Number_of_units (grant_of (rec_grant r))"
    if "r \<in> set recs" for r
    using phase2_loop_units [OF recs that] by simp
  have trace: "loss_after pre < total_cap_gain_to_offset recs1
          \<and> units_to_sell r
              = min (Number_of_units (grant_of (rec_grant r)))
                    \<lceil>(total_cap_gain_to_offset recs1 - loss_after pre)
                       / \<bar>capital_per_share (components (rec_grant r))\<bar>\<rceil>
          \<and> loss_after (pre @ [r])
              < total_cap_gain_to_offset recs1 + \<bar>capital_per_share (components (rec_grant r))\<bar>"
    if "recs = pre @ r # post" for pre r post
    using phase2_loop_trace [OF recs that] by simp
  show ?thesis
    unfolding loss_phase_def using recs order neg units trace by blast
qed

theorem loss_phase_covers_offset_within_one_share_witness:
  "loss_phase [\<lparr>rec_grant = example_processed, units_to_sell = 100\<rparr>]
       [example_processed, loss_processed]
     = Inr [\<lparr>rec_grant = loss_processed, units_to_sell = 264\<rparr>]
   \<and> (264::int) \<le> Number_of_units loss_grant
   \<and> (264::int) = min (Number_of_units loss_grant) \<lceil>(39500 - 0) / (150::real)\<rceil>
   \<and> loss_after [\<lparr>rec_grant = loss_processed, units_to_sell = 264\<rparr>] < 39500 + 150"
proof -
  from loss_phase_covers_offset_within_one_share
         [of "[\<lparr>rec_grant = example_processed, units_to_sell = 100\<rparr>]"
             "[example_processed, loss_processed]"]
  have "\<forall>r \<in> set [\<lparr>rec_grant = loss_processed, units_to_sell = 264\<rparr>].
           units_to_sell r \<le> Number_of_units (grant_of (rec_grant r))"
    and "\<forall>pre r post. [\<lparr>rec_grant = loss_processed, units_to_sell = 264\<rparr>] = pre @ r # post \<longrightarrow>
          units_to_sell r
              = min (Number_of_units (grant_of (rec_grant r)))
                    \<lceil>(39500 - loss_after pre)
                       / \<bar>capital_per_share (components (rec_grant r))\<bar>\<rceil>
          \<and> loss_after (pre @ [r])
              < 39500 + \<bar>capital_per_share (components (rec_grant r))\<bar>"
    unfolding example_loss_phase example_total by auto
  from this(1) this(2) [rule_format, of "[]" "\<lparr>rec_grant = loss_processed, units_to_sell = 264\<rparr>" "[]"]
  show ?thesis
    using example_loss_phase by (simp add: loss_processed_def loss_after_def)
qed

text \<open>
  Claim C10. When the gains phase returns no recommendation, or only recommendations
  whose capital component is 0, the total capital gain to offset is not positive, the
  loss phase returns no recommendation, and the optimizer's recommendations are those
  of the gains phase alone.
\<close>

theorem no_capital_gain_no_loss_harvest:
  assumes "grants_to_process m sale_date rsu_data = Inr gtp"
    and "gains_phase current_income target gtp = Inr recs1"
    and "recs1 = [] \<or> (\<forall>r \<in> set recs1. capital_per_share (components (rec_grant r)) = 0)"
  shows "total_cap_gain_to_offset recs1 \<le> 0
         \<and> loss_phase recs1 gtp = Inr []
         \<and> recommendations m rsu_data current_income target sale_date = Inr recs1"
proof -
  have "\<forall>r \<in> set recs1. capital_per_share (components (rec_grant r)) = 0"
    using assms(3) by auto
  then have z: "total_cap_gain_to_offset recs1 = 0"
    by (rule total_cap_gain_zero)
  then have l: "loss_phase recs1 gtp = Inr []"
    by (simp add: loss_phase_def phase2_loop_nothing_to_offset)
  show ?thesis
    using z l by (simp add: recommendations_def assms(1,2))
qed

theorem no_capital_gain_no_loss_harvest_witness:
  "cap_losses [underwater_processed, deep_loss_processed] = [deep_loss_processed]
   \<and> total_cap_gain_to_offset [\<lparr>rec_grant = underwater_processed, units_to_sell = 100\<rparr>] \<le> 0
   \<and> loss_phase [\<lparr>rec_grant = underwater_processed, units_to_sell = 100\<rparr>]
        [underwater_processed, deep_loss_processed] = Inr []
   \<and> recommendations (example_market 40 50) [example_grant, loss_grant] 100000 269280 late_sale
        = Inr [\<lparr>rec_grant = underwater_processed, units_to_sell = 100\<rparr>]"
proof -
  have c: "cap_losses [underwater_processed, deep_loss_processed] = [deep_loss_processed]"
    by (simp add: cap_losses_def is_cap_loss_def underwater_processed_def deep_loss_processed_def)
  have z: "\<forall>r \<in> set [\<lparr>rec_grant = underwater_processed, units_to_sell = 100\<rparr>].
             capital_per_share (components (rec_grant r)) = 0"
    by (simp add: underwater_processed_def)
  from no_capital_gain_no_loss_harvest [OF underwater_gtp underwater_gains disjI2, OF z] c
  show ?thesis by simp
qed

section \<open>The whole optimizer\<close>

text \<open>
  Claim C8. The optimizer returns a table for every input, never an error. When the
  target ceiling is at or below the current income, the income room is clamped to 0,
  the gains phase selects nothing, and the optimizer returns the empty table. A grant
  whose components cannot be resolved is left out and the run continues on the others.
\<close>

theorem no_income_room_is_not_an_error:
  "(\<exists>rows. optimize_rsu_sales m rsu_data current_income target sale_date = Inr rows)
   \<and> (target \<le> current_income \<longrightarrow>
        income_room current_income target = 0
        \<and> gains_phase current_income target gtp = Inr []
        \<and> recommendations m rsu_data current_income target sale_date = Inr []
        \<and> optimize_rsu_sales m rsu_data current_income target sale_date = Inr [])
   \<and> (get_tax_components m g sale_date = None \<longrightarrow>
        optimize_rsu_sales m (g # rsu_data) current_income target sale_date
          = optimize_rsu_sales m rsu_data current_income target sale_date)"
proof (intro conjI impI)
  obtain recs where "recommendations m rsu_data current_income target sale_date = Inr recs"
    using recommendations_total by blast
  then show "\<exists>rows. optimize_rsu_sales m rsu_data current_income target sale_date = Inr rows"
    by (simp add: optimize_rsu_sales_def)
next
  assume "target \<le> current_income"
  then show "income_room current_income target = 0" by (simp add: income_room_def)
next
  assume "target \<le> current_income"
  then show "gains_phase current_income target gtp = Inr []"
    by (simp add: gains_phase_def phase1_loop_no_room)
next
  assume le: "target \<le> current_income"
  obtain gtp' where 1: "grants_to_process m sale_date rsu_data = Inr gtp'"
    using grants_to_process_total by blast
  have 2: "gains_phase current_income target gtp' = Inr []"
    using le by (simp add: gains_phase_def phase1_loop_no_room)
  have 3: "loss_phase [] gtp' = Inr []"
    by (simp add: loss_phase_def total_cap_gain_to_offset_def phase2_loop_nothing_to_offset)
  show r: "recommendations m rsu_data current_income target sale_date = Inr []"
    by (simp add: recommendations_def 1 2 3)
  show "optimize_rsu_sales m rsu_data current_income target sale_date = Inr []"
    by (simp add: optimize_rsu_sales_def r)
next
  assume "get_tax_components m g sale_date = None"
  then show "optimize_rsu_sales m (g # rsu_data) current_income target sale_date
          = optimize_rsu_sales m rsu_data current_income target sale_date"
    by (simp add: optimize_rsu_sales_def recommendations_def)
qed

theorem no_income_room_is_not_an_error_witness:
  "(269280::real) \<le> 300000
   \<and> income_room 300000 269280 = 0
   \<and> gains_phase 300000 269280 [example_processed, loss_processed] = Inr []
   \<and> optimize_rsu_sales (example_market 150 50) [example_grant, loss_grant] 300000 269280 late_sale
       = Inr []
   \<and> get_tax_components (example_market 0 50) example_grant late_sale = None
   \<and> optimize_rsu_sales (example_market 0 50) [example_grant] 300000 269280 late_sale = Inr []"
proof -
  have n: "get_tax_components (example_market 0 50) example_grant late_sale = None"
    by (simp add: get_tax_components_def example_market_def late_sale_def example_grant_def
          all_truthy_def truthy_def)
  from no_income_room_is_not_an_error [of "example_market 150 50" "[example_grant, loss_grant]" 300000 269280 late_sale
              "[example_processed, loss_processed]"]
       no_income_room_is_not_an_error [of "example_market 0 50" "[]" 300000 269280 late_sale "[]" example_grant]
       n
  show ?thesis by simp
qed

text \<open>
  Claim C7. For every run of the optimizer, the recommendations are those of the gains
  phase followed by those of the loss phase; every recommendation sells more than 0 and
  at most its grant's unit count; every input row yields at most one recommendation
  (the rows recommended form a sub-multiset of the input rows); for a row with a
  non-negative unit count, the units recommended for it in total are at most its unit
  count times the number of times the row occurs in the input; and no row is
  recommended by both phases.
\<close>

theorem recommendations_within_unit_counts:
  "\<exists>gtp recs1 recs2.
      grants_to_process m sale_date rsu_data = Inr gtp
      \<and> gains_phase current_income target gtp = Inr recs1
      \<and> loss_phase recs1 gtp = Inr recs2
      \<and> recommendations m rsu_data current_income target sale_date = Inr (recs1 @ recs2)
      \<and> (\<forall>r \<in> set (recs1 @ recs2).
            0 < units_to_sell r \<and> units_to_sell r \<le> Number_of_units (grant_of (rec_grant r)))
      \<and> mset (map (\<lambda>r. grant_of (rec_grant r)) (recs1 @ recs2)) \<subseteq># mset rsu_data
      \<and> (\<forall>g. 0 \<le> Number_of_units g \<longrightarrow>
            units_recommended g (recs1 @ recs2)
              \<le> int (count (mset rsu_data) g) * Number_of_units g)
      \<and> (\<forall>r1 \<in> set recs1. \<forall>r2 \<in> set recs2.
            grant_of (rec_grant r1) \<noteq> grant_of (rec_grant r2))"
proof -
  obtain gtp where gtp: "grants_to_process m sale_date rsu_data = Inr gtp"
    using grants_to_process_total by blast
  obtain recs1 where p1: "phase1_loop target current_income (s102_gains gtp) = Inr recs1"
    using phase1_loop_total by blast
  obtain recs2 where p2:
    "phase2_loop (total_cap_gain_to_offset recs1) 0 (cap_losses gtp) = Inr recs2"
    using phase2_loop_total by blast
  have g1: "gains_phase current_income target gtp = Inr recs1"
    by (simp add: gains_phase_def p1)
  have l2: "loss_phase recs1 gtp = Inr recs2"
    by (simp add: loss_phase_def p2)
  have recs: "recommendations m rsu_data current_income target sale_date = Inr (recs1 @ recs2)"
    by (simp add: recommendations_def gtp g1 l2)
  have units: "\<forall>r \<in> set (recs1 @ recs2).
       0 < units_to_sell r \<and> units_to_sell r \<le> Number_of_units (grant_of (rec_grant r))"
    using phase1_loop_units [OF p1] phase2_loop_units [OF p2] by auto
  have m1: "mset (map rec_grant recs1) \<subseteq># mset (filter is_s102_gain gtp)"
    using subseq_mset [OF phase1_loop_subseq [OF p1]]
    by (simp only: s102_gains_def mset_sorted_reverse)
  have m2: "mset (map rec_grant recs2) \<subseteq># mset (filter is_cap_loss gtp)"
    using subseq_mset [OF phase2_loop_subseq [OF p2]] by (simp only: cap_losses_def)
  have "mset (map rec_grant (recs1 @ recs2))
          \<subseteq># mset (filter is_s102_gain gtp) + mset (filter is_cap_loss gtp)"
    using mset_subset_eq_mono_add [OF m1 m2] by simp
  also have "\<dots> \<subseteq># mset gtp"
    by (rule disjoint_filters_mset) (rule gain_not_loss)
  finally have "image_mset grant_of (mset (map rec_grant (recs1 @ recs2)))
                  \<subseteq># image_mset grant_of (mset gtp)"
    by (rule image_mset_subseteq_mono)
  also have "image_mset grant_of (mset gtp) \<subseteq># mset rsu_data"
    using subseq_mset [OF grants_to_process_subseq [OF gtp]] by simp
  finally have rows: "mset (map (\<lambda>r. grant_of (rec_grant r)) (recs1 @ recs2)) \<subseteq># mset rsu_data"
    by (simp add: multiset.map_comp comp_def)
  have per_grant: "units_recommended g (recs1 @ recs2)
                     \<le> int (count (mset rsu_data) g) * Number_of_units g"
    if nonneg: "0 \<le> Number_of_units g" for g
  proof -
    let ?sel = "filter (\<lambda>r. grant_of (rec_grant r) = g) (recs1 @ recs2)"
    have "\<forall>r \<in> set ?sel. units_to_sell r \<le> Number_of_units g"
      using units by auto
    then have "units_recommended g (recs1 @ recs2) \<le> int (length ?sel) * Number_of_units g"
      unfolding units_recommended_def by (rule sum_list_bounded)
    also have "length ?sel = count (mset (map (\<lambda>r. grant_of (rec_grant r)) (recs1 @ recs2))) g"
      by (simp only: count_map_filter)
    also have "int \<dots> * Number_of_units g \<le> int (count (mset rsu_data) g) * Number_of_units g"
      using mset_subset_eq_count [OF rows, of g] nonneg
      by (intro mult_right_mono) simp_all
    finally show ?thesis .
  qed
  have apart: "grant_of (rec_grant r1) \<noteq> grant_of (rec_grant r2)"
    if r1: "r1 \<in> set recs1" and r2: "r2 \<in> set recs2" for r1 r2
  proof
    assume eq: "grant_of (rec_grant r1) = grant_of (rec_grant r2)"
    have a: "rec_grant r1 \<in> set (s102_gains gtp)"
      using subseq_set [OF phase1_loop_subseq [OF p1]] r1 by auto
    have b: "rec_grant r2 \<in> set (cap_losses gtp)"
      using subseq_set [OF phase2_loop_subseq [OF p2]] r2 by auto
    from a have a': "rec_grant r1 \<in> set gtp" "is_s102_gain (rec_grant r1)"
      by (simp_all add: set_s102_gains)
    from b have b': "rec_grant r2 \<in> set gtp" "is_cap_loss (rec_grant r2)"
      by (simp_all add: set_cap_losses)
    have "Some (components (rec_grant r1)) = Some (components (rec_grant r2))"
      using grants_to_process_components [OF gtp a'(1)]
            grants_to_process_components [OF gtp b'(1)] eq by simp
    then have "is_cap_loss (rec_grant r1)"
      using b'(2) by (simp add: is_cap_loss_def)
    with a'(2) show False by (simp add: gain_not_loss)
  qed
  show ?thesis
    using gtp g1 l2 recs units rows per_grant apart by blast
qed

theorem recommendations_within_unit_counts_witness:
  "recommendations (example_market 150 50) [example_grant, loss_grant] 100000 269280 late_sale
     = Inr [\<lparr>rec_grant = example_processed, units_to_sell = 100\<rparr>,
            \<lparr>rec_grant = loss_processed, units_to_sell = 264\<rparr>]
   \<and> (0::int) < 100 \<and> 100 \<le> Number_of_units example_grant
   \<and> (0::int) < 264 \<and> 264 \<le> Number_of_units loss_grant
   \<and> units_recommended example_grant
        [\<lparr>rec_grant = example_processed, units_to_sell = 100\<rparr>,
         \<lparr>rec_grant = loss_processed, units_to_sell = 264\<rparr>]
       \<le> int (count (mset [example_grant, loss_grant]) example_grant) * Number_of_units example_grant
   \<and> example_grant \<noteq> loss_grant"
proof -
  have ne: "example_grant \<noteq> loss_grant"
    by (simp add: example_grant_def loss_grant_def)
  have u: "(0::int) \<le> Number_of_units example_grant"
    by (simp add: example_grant_def)
  from recommendations_within_unit_counts
         [of "example_market 150 50" late_sale "[example_grant, loss_grant]" 100000 269280]
  obtain recs1 recs2 where
    a: "gains_phase 100000 269280 [example_processed, loss_processed] = Inr recs1"
    and b: "loss_phase recs1 [example_processed, loss_processed] = Inr recs2"
    and c: "recommendations (example_market 150 50) [example_grant, loss_grant] 100000 269280
              late_sale = Inr (recs1 @ recs2)"
    and d: "\<forall>r \<in> set (recs1 @ recs2).
              0 < units_to_sell r \<and> units_to_sell r \<le> Number_of_units (grant_of (rec_grant r))"
    and e: "\<forall>g. 0 \<le> Number_of_units g \<longrightarrow>
              units_recommended g (recs1 @ recs2)
                \<le> int (count (mset [example_grant, loss_grant]) g) * Number_of_units g"
    unfolding example_gtp by auto
  from a example_gains
  have r1: "recs1 = [\<lparr>rec_grant = example_processed, units_to_sell = 100\<rparr>]" by simp
  from b example_loss_phase
  have r2: "recs2 = [\<lparr>rec_grant = loss_processed, units_to_sell = 264\<rparr>]"
    unfolding r1 by simp
  from c d e [rule_format, OF u] ne show ?thesis
    unfolding r1 r2 by (simp add: example_processed_def loss_processed_def)
qed

end
